theory Spec2Isabelle
  imports Complex_Main "HOL-Library.AList"
begin

section \<open>FuzzQLite: the differential SQLite runner (sqlite\_runner.py)\<close>

text \<open>
  A shallow embedding of \<^verbatim>\<open>SQLiteRunner\<close>: the output normaliser, the outcome
  classification of \<^verbatim>\<open>run\<close>, the snapshotter, the bounded executor and the
  session statistics of \<^verbatim>\<open>record_results\<close>.  Python \<^verbatim>\<open>str\<close> values are
  modelled as \<^typ>\<open>string\<close>, so the model covers text whose code points lie
  below 256.
\<close>

subsection \<open>Text primitives: \<^verbatim>\<open>str.strip\<close>, \<^verbatim>\<open>str.split\<close>, \<^verbatim>\<open>str.join\<close>\<close>

text \<open>
  \<^verbatim>\<open>str.strip()\<close> removes the characters for which \<^verbatim>\<open>str.isspace\<close> holds.
  Below code point 256 these are TAB, LF, VT, FF, CR, the four separators
  0x1C..0x1F, SPACE, NEL (0x85) and NBSP (0xA0).
\<close>

definition whitespace :: "char list" where
  "whitespace = [CHR 0x09, CHR 0x0A, CHR 0x0B, CHR 0x0C, CHR 0x0D,
                 CHR 0x1C, CHR 0x1D, CHR 0x1E, CHR 0x1F, CHR 0x20, CHR 0x85, CHR 0xA0]"

definition is_space :: "char \<Rightarrow> bool" where
  "is_space c = (c \<in> set whitespace)"

definition py_strip :: "string \<Rightarrow> string" where
  "py_strip s = rev (dropWhile is_space (rev (dropWhile is_space s)))"

text \<open>\<^verbatim>\<open>s.split(sep)\<close> for a one-character separator: never returns the empty list.\<close>

fun py_split :: "char \<Rightarrow> string \<Rightarrow> string list" where
  "py_split sep [] = [[]]"
| "py_split sep (c # cs) =
     (if c = sep then [] # py_split sep cs
      else (case py_split sep cs of
              w # ws \<Rightarrow> (c # w) # ws
            | [] \<Rightarrow> [[c]]))"

fun py_join :: "string \<Rightarrow> string list \<Rightarrow> string" where
  "py_join sep [] = []"
| "py_join sep [x] = x"
| "py_join sep (x # y # ys) = x @ sep @ py_join sep (y # ys)"

subsection \<open>Python floats: \<^verbatim>\<open>float(str)\<close> and the \<^verbatim>\<open>.10f\<close> format\<close>

text \<open>
  A Python float is an IEEE 754 binary64 value.  A finite one is kept as its sign bit
  and its exact magnitude, a rational number.
\<close>

datatype pyfloat = Finite bool rat | Infinity bool | NaN

text \<open>Rounding to the nearest integer, ties to the even one.\<close>

definition round_half_even :: "rat \<Rightarrow> int" where
  "round_half_even x =
     (let f = \<lfloor>x\<rfloor>; r = x - of_int f
      in if r < 1 / 2 then f
         else if 1 / 2 < r then f + 1
         else if even f then f else f + 1)"

text \<open>The number of binary digits of a natural number (\<^verbatim>\<open>int.bit_length\<close>).\<close>

fun bit_length :: "nat \<Rightarrow> nat" where
  "bit_length n = (if n = 0 then 0 else Suc (bit_length (n div 2)))"

declare bit_length.simps [simp del]

text \<open>For \<open>q > 0\<close>, the exponent \<open>e\<close> with \<open>2 ^ e \<le> q < 2 ^ (e + 1)\<close>.\<close>

definition ilog2 :: "rat \<Rightarrow> int" where
  "ilog2 q =
     (if 1 \<le> q then int (bit_length (nat \<lfloor>q\<rfloor>)) - 1
      else - int (bit_length (nat (\<lceil>1 / q\<rceil> - 1))))"

text \<open>
  Correct rounding of a non-negative rational to binary64 (round to nearest, ties to
  even): 53 significant bits, least exponent \<open>-1074\<close> (subnormals included), and
  \<open>None\<close> when the rounded value leaves the finite range.
\<close>

definition round_to_double :: "rat \<Rightarrow> rat option" where
  "round_to_double q =
     (if q = 0 then Some 0
      else let k = max (ilog2 q - 52) (- 1074);
               d = of_int (round_half_even (q / 2 powi k)) * 2 powi k
           in if d < 2 ^ 1024 then Some d else None)"

definition to_float :: "bool \<Rightarrow> rat \<Rightarrow> pyfloat" where
  "to_float neg q = (case round_to_double q of Some d \<Rightarrow> Finite neg d | None \<Rightarrow> Infinity neg)"

definition is_digit :: "char \<Rightarrow> bool" where
  "is_digit c = (c \<in> set ''0123456789'')"

definition digit_val :: "char \<Rightarrow> nat" where
  "digit_val c = of_char c - 48"

definition digits_val :: "string \<Rightarrow> nat" where
  "digits_val ds = foldl (\<lambda>n c. 10 * n + digit_val c) 0 ds"

text \<open>
  \<^verbatim>\<open>float\<close> accepts underscores between two digits and removes them before parsing
  (\<^verbatim>\<open>_Py_string_to_number_with_underscores\<close>); the first argument is the previous
  character.
\<close>

fun drop_underscores :: "char option \<Rightarrow> string \<Rightarrow> string option" where
  "drop_underscores prev [] = (if prev = Some CHR ''_'' then None else Some [])"
| "drop_underscores prev (c # cs) =
     (if c = CHR ''_''
      then (case prev of
              Some p \<Rightarrow> if is_digit p then drop_underscores (Some c) cs else None
            | None \<Rightarrow> None)
      else if prev = Some CHR ''_'' \<and> \<not> is_digit c then None
      else map_option ((#) c) (drop_underscores (Some c) cs))"

text \<open>
  \<^verbatim>\<open>float\<close> strips the ASCII white space TAB, LF, VT, FF, CR and SPACE; in a text with
  a non-ASCII character every \<^verbatim>\<open>isspace\<close> character beyond ASCII (NEL, NBSP) is
  first replaced by a SPACE.  The separators 0x1C..0x1F are not stripped.
\<close>

definition float_space :: "char \<Rightarrow> bool" where
  "float_space c =
     (c \<in> set [CHR 0x09, CHR 0x0A, CHR 0x0B, CHR 0x0C, CHR 0x0D, CHR 0x20, CHR 0x85, CHR 0xA0])"

definition float_strip :: "string \<Rightarrow> string" where
  "float_strip s = rev (dropWhile float_space (rev (dropWhile float_space s)))"

definition split_sign :: "string \<Rightarrow> bool \<times> string" where
  "split_sign s =
     (case s of
        [] \<Rightarrow> (False, [])
      | c # cs \<Rightarrow> if c = CHR ''-'' then (True, cs)
                  else if c = CHR ''+'' then (False, cs)
                  else (False, s))"

text \<open>
  The exponent part: \<^verbatim>\<open>e\<close> or \<^verbatim>\<open>E\<close>, an optional sign and at least one digit.
  Without a digit nothing is consumed.
\<close>

definition parse_exponent :: "string \<Rightarrow> int \<times> string" where
  "parse_exponent s =
     (case s of
        [] \<Rightarrow> (0, [])
      | c # cs \<Rightarrow>
          if c = CHR ''e'' \<or> c = CHR ''E''
          then (let (neg, ds) = split_sign cs; ed = takeWhile is_digit ds
                in if ed = [] then (0, s)
                   else ((if neg then - int (digits_val ed) else int (digits_val ed)),
                         dropWhile is_digit ds))
          else (0, s))"

text \<open>
  The decimal literal of \<^verbatim>\<open>strtod\<close>: digits, an optional point and digits, at least
  one digit in all, an optional exponent.  The result is the exact value and the text
  left unread; \<open>None\<close> when nothing converts.
\<close>

definition parse_decimal :: "string \<Rightarrow> (rat \<times> string) option" where
  "parse_decimal s =
     (let ip = takeWhile is_digit s;
          r1 = dropWhile is_digit s;
          (fp, r2) = (case r1 of
                        [] \<Rightarrow> ([], [])
                      | c # cs \<Rightarrow> if c = CHR ''.''
                                  then (takeWhile is_digit cs, dropWhile is_digit cs)
                                  else ([], r1))
      in if ip = [] \<and> fp = [] then None
         else (let (ex, r3) = parse_exponent r2
               in Some (of_nat (digits_val (ip @ fp)) * 10 powi (ex - int (length fp)), r3)))"

definition lower_ascii :: "char \<Rightarrow> char" where
  "lower_ascii c =
     (if 65 \<le> (of_char c :: nat) \<and> (of_char c :: nat) \<le> 90 then char_of (of_char c + 32 :: nat) else c)"

definition parse_inf_or_nan :: "string \<Rightarrow> pyfloat option" where
  "parse_inf_or_nan s =
     (let (neg, r) = split_sign s; w = map lower_ascii r
      in if w = ''inf'' \<or> w = ''infinity'' then Some (Infinity neg)
         else if w = ''nan'' then Some NaN
         else None)"

text \<open>\<^verbatim>\<open>float(s)\<close>; \<open>None\<close> is \<^verbatim>\<open>ValueError\<close>.\<close>

definition py_float :: "string \<Rightarrow> pyfloat option" where
  "py_float s =
     (case drop_underscores None s of
        None \<Rightarrow> None
      | Some t \<Rightarrow>
          (let u = float_strip t
           in if u = [] then None
              else (let (neg, body) = split_sign u
                    in case parse_decimal body of
                         Some (q, rest) \<Rightarrow> if rest = [] then Some (to_float neg q) else None
                       | None \<Rightarrow> parse_inf_or_nan u)))"

definition digit_char :: "nat \<Rightarrow> char" where
  "digit_char d = ''0123456789'' ! d"

fun show_nat :: "nat \<Rightarrow> string" where
  "show_nat n = (if n < 10 then [digit_char n] else show_nat (n div 10) @ [digit_char (n mod 10)])"

declare show_nat.simps [simp del]

fun frac_digits :: "nat \<Rightarrow> nat \<Rightarrow> string" where
  "frac_digits 0 n = []"
| "frac_digits (Suc k) n = frac_digits k (n div 10) @ [digit_char (n mod 10)]"

text \<open>
  \<^verbatim>\<open>f"{x:.10f}"\<close>: the value rounded (ties to even) to ten fractional digits; infinities
  and NaN have no digits.
\<close>

definition format_10f :: "pyfloat \<Rightarrow> string" where
  "format_10f x =
     (case x of
        Finite neg d \<Rightarrow>
          (let n = nat (round_half_even (d * 10 ^ 10))
           in (if neg then ''-'' else '''') @ show_nat (n div 10 ^ 10) @ ''.'' @
              frac_digits 10 (n mod 10 ^ 10))
      | Infinity neg \<Rightarrow> (if neg then ''-inf'' else ''inf'')
      | NaN \<Rightarrow> ''nan'')"

subsection \<open>\<^verbatim>\<open>_normalize_output\<close>\<close>

text \<open>The body of the inner loop: one field of one line.\<close>

definition normalize_part :: "string \<Rightarrow> string" where
  "normalize_part p =
     (let part = py_strip p
      in case py_float part of
           Some float_val \<Rightarrow> if CHR ''.'' \<in> set part then format_10f float_val else part
         | None \<Rightarrow> part)"

text \<open>The inner loop, with \<^verbatim>\<open>normalized_parts\<close> as accumulator.\<close>

fun normalize_parts :: "string list \<Rightarrow> string list \<Rightarrow> string list" where
  "normalize_parts normalized_parts [] = normalized_parts"
| "normalize_parts normalized_parts (part # parts) =
     normalize_parts (normalized_parts @ [normalize_part part]) parts"

text \<open>The outer loop, with \<^verbatim>\<open>normalized_lines\<close> as accumulator.\<close>

fun normalize_lines :: "string list \<Rightarrow> string list \<Rightarrow> string list" where
  "normalize_lines normalized_lines [] = normalized_lines"
| "normalize_lines normalized_lines (line # lines) =
     (if py_strip line = [] then normalize_lines normalized_lines lines
      else normalize_lines
             (normalized_lines @ [py_join ''|'' (normalize_parts [] (py_split CHR ''|'' line))])
             lines)"

definition normalize_output :: "string \<Rightarrow> string" where
  "normalize_output output =
     py_join [CHR 0x0A] (normalize_lines [] (py_split (CHR 0x0A) (py_strip output)))"

subsection \<open>Results, outcomes and run results\<close>

text \<open>
  Modelled from the spec: \<^verbatim>\<open>runner/outcome.py\<close> is not among the sources.  The spec
  gives the five labels, and the runner uses them as keys of the statistics.
\<close>

datatype outcome = PASS | CRASH | LOGIC_BUG | REFERENCE_ERROR | INVALID_QUERY

text \<open>
  The dictionary \<^verbatim>\<open>_run_sqlite\<close> returns.  \<^verbatim>\<open>returncode\<close> starts as \<^verbatim>\<open>None\<close> and is
  assigned on every path that returns, so it is an integer here; the two streams may
  stay \<^verbatim>\<open>None\<close>.
\<close>

record exec_result =
  returncode :: int
  stdout :: "string option"
  stderr :: "string option"

text \<open>The exceptions that leave a method of the runner.\<close>

datatype py_error =
    OSError string
  | SameFileError string
  | KeyError string
  | AttributeError string

text \<open>
  Modelled from the spec: \<^verbatim>\<open>runner/run_result.py\<close> is not among the sources.  The
  fields are the keyword arguments of the constructor call in \<^verbatim>\<open>run\<close> and the
  attribute \<^verbatim>\<open>bug_dir\<close> that \<^verbatim>\<open>record_results\<close> sets.
\<close>

record run_result =
  outcome :: outcome
  sql_query :: string
  db_path :: "string option"
  saved_db_path :: "string option"
  target_sqlite_version :: string
  target_result :: exec_result
  reference_sqlite_version :: string
  reference_result :: exec_result
  bug_dir :: "string option"

subsection \<open>The world outside the runner\<close>

text \<open>
  What a subprocess launch does, as \<^verbatim>\<open>subprocess.run\<close> reports it inside the
  \<^verbatim>\<open>try\<close> block: the process ends with a status and both streams, the timeout
  expires with whatever was captured, or another exception is raised (a missing
  binary, a permission error, a failing \<^verbatim>\<open>open\<close>) with its message.
\<close>

datatype proc_event =
    Completed int string string
  | TimeoutExpired "string option" "string option"
  | Raised string

text \<open>The calls the runner makes to the outside, in order.\<close>

datatype event =
    SaveDatabaseState string
  | RunSqlite string string "string option"

text \<open>
  The file system is a flat map from paths to the contents of regular files.  The
  remaining fields are what the environment decides: the values of
  \<^verbatim>\<open>uuid.uuid4().hex\<close>, whether writing the temporary statement file fails, whether
  a copy fails (permissions, a full disk), and what a launched program does to its
  streams and to the files.  \<open>journal\<close> records the calls made.
\<close>

record world =
  files :: "string \<rightharpoonup> string"
  uuid_hex :: "nat \<Rightarrow> string"
  uuid_next :: nat
  tempfile_error :: "string \<Rightarrow> string option"
  copy_error :: "string \<Rightarrow> string \<Rightarrow> string option"
  spawn :: "string \<Rightarrow> string \<Rightarrow> string \<Rightarrow> int \<Rightarrow> (string \<rightharpoonup> string)
              \<Rightarrow> proc_event \<times> (string \<rightharpoonup> string)"
  journal :: "event list"





subsection \<open>The runner\<close>

text \<open>
  The attributes of \<^verbatim>\<open>SQLiteRunner\<close> that the modelled methods read or write.  The
  console, the live display and the start time only feed the progress display.
  \<open>stats\<close> is the dictionary of dictionaries; \<open>run_results\<close> is the trailing history.
\<close>

record runner =
  target_sqlite_paths :: "string list"
  reference_sqlite_path :: string
  timeout :: int
  temp_dir :: string
  stats :: "string \<rightharpoonup> (outcome \<rightharpoonup> nat)"
  total_trials :: int
  current_trial :: int
  run_results :: "(string \<times> run_result) list"

definition zero_stats :: "outcome \<rightharpoonup> nat" where
  "zero_stats = [PASS \<mapsto> 0, CRASH \<mapsto> 0, LOGIC_BUG \<mapsto> 0, REFERENCE_ERROR \<mapsto> 0, INVALID_QUERY \<mapsto> 0]"

text \<open>\<^verbatim>\<open>__init__\<close>; the scratch directory \<^verbatim>\<open>tempfile.mkdtemp\<close> made is an argument.\<close>

definition init :: "string list \<Rightarrow> string \<Rightarrow> int \<Rightarrow> int \<Rightarrow> string \<Rightarrow> runner" where
  "init targets reference trials tmo scratch =
     \<lparr>target_sqlite_paths = targets,
      reference_sqlite_path = reference,
      timeout = tmo,
      temp_dir = scratch,
      stats = fold (\<lambda>path m. m(path \<mapsto> zero_stats)) targets Map.empty,
      total_trials = trials,
      current_trial = 0,
      run_results = []\<rparr>"


text \<open>
  \<^verbatim>\<open>_run_sqlite\<close>.  The temporary file is created and written before the \<^verbatim>\<open>try\<close>
  block, so its failure leaves the method.  A \<^verbatim>\<open>None\<close> data path in the argument
  list makes \<^verbatim>\<open>subprocess.run\<close> raise \<^verbatim>\<open>TypeError\<close> before anything is launched.
\<close>

definition launch :: "runner \<Rightarrow> world \<Rightarrow> string \<Rightarrow> string \<Rightarrow> string option
    \<Rightarrow> proc_event \<times> (string \<rightharpoonup> string)" where
  "launch self w sqlite_path query path =
     (case path of
        None \<Rightarrow> (Raised ''expected str, bytes or os.PathLike object, not NoneType'', files w)
      | Some p \<Rightarrow> spawn w sqlite_path p query (timeout self) (files w))"

definition run_sqlite :: "runner \<Rightarrow> world \<Rightarrow> string \<Rightarrow> string \<Rightarrow> string option
    \<Rightarrow> (py_error + exec_result) \<times> world" where
  "run_sqlite self w sqlite_path query path =
     (let w0 = w\<lparr>journal := journal w @ [RunSqlite sqlite_path query path]\<rparr>
      in case tempfile_error w query of
           Some msg \<Rightarrow> (Inl (OSError msg), w0)
         | None \<Rightarrow>
             (case launch self w sqlite_path query path of
                (Completed rc out err, fs) \<Rightarrow>
                  (Inr \<lparr>returncode = rc, stdout = Some out, stderr = Some err\<rparr>, w0\<lparr>files := fs\<rparr>)
              | (TimeoutExpired out err, fs) \<Rightarrow>
                  (Inr \<lparr>returncode = - 1, stdout = out, stderr = err\<rparr>, w0\<lparr>files := fs\<rparr>)
              | (Raised msg, fs) \<Rightarrow>
                  (Inr \<lparr>returncode = - 1, stdout = None, stderr = Some msg\<rparr>, w0\<lparr>files := fs\<rparr>)))"

text \<open>
  The outcome decision of \<^verbatim>\<open>run\<close> (the \<^verbatim>\<open>if\<close> chain of the loop body).
  \<^verbatim>\<open>_normalize_output\<close> calls \<^verbatim>\<open>strip\<close> on its argument, which raises on \<^verbatim>\<open>None\<close>;
  the target's output is normalised first.
\<close>

definition classify :: "exec_result \<Rightarrow> exec_result \<Rightarrow> py_error + outcome" where
  "classify reference target =
     (let target_crashed = (returncode target \<noteq> 0);
          reference_crashed = (returncode reference \<noteq> 0)
      in if target_crashed \<and> \<not> reference_crashed then Inr CRASH
         else if \<not> target_crashed \<and> reference_crashed then Inr REFERENCE_ERROR
         else if \<not> target_crashed \<and> \<not> reference_crashed
         then (case stdout target of
                 None \<Rightarrow> Inl (AttributeError ''strip'')
               | Some t \<Rightarrow>
                   (case stdout reference of
                      None \<Rightarrow> Inl (AttributeError ''strip'')
                    | Some r \<Rightarrow>
                        if normalize_output t \<noteq> normalize_output r then Inr LOGIC_BUG
                        else Inr PASS))
         else Inr INVALID_QUERY)"






subsection \<open>Session statistics: \<^verbatim>\<open>start_fuzzing_session\<close> and \<^verbatim>\<open>record_results\<close>\<close>

text \<open>
  \<^verbatim>\<open>start_fuzzing_session\<close>: every counter of every configured target is set to zero
  and the history is emptied.  \<^verbatim>\<open>self.stats[path]\<close> raises \<^verbatim>\<open>KeyError\<close> for a path
  without statistics.
\<close>

fun reset_stats :: "(string \<rightharpoonup> (outcome \<rightharpoonup> nat)) \<Rightarrow> string list
    \<Rightarrow> py_error + (string \<rightharpoonup> (outcome \<rightharpoonup> nat))" where
  "reset_stats st [] = Inr st"
| "reset_stats st (path # paths) =
     (case st path of
        None \<Rightarrow> Inl (KeyError path)
      | Some m \<Rightarrow> reset_stats (st(path \<mapsto> (\<lambda>oc. if m oc = None then None else Some 0))) paths)"

definition start_fuzzing_session :: "runner \<Rightarrow> py_error + runner" where
  "start_fuzzing_session self =
     (case reset_stats (stats self) (target_sqlite_paths self) of
        Inl e \<Rightarrow> Inl e
      | Inr st \<Rightarrow> Inr (self\<lparr>current_trial := 0, run_results := [], stats := st\<rparr>))"

text \<open>
  Modelled from the spec: \<^verbatim>\<open>utils/bug_tracker.py\<close> is not among the sources.  The
  tracker is the collaborator \<^verbatim>\<open>saveReproducer(...) -> archiveLocation\<close>: \<open>locate\<close> is
  the location it returns, given the calls it has served, and \<open>served\<close> lists the
  requests with the locations returned, in the order of the calls.
\<close>

record save_request =
  req_bug_type :: outcome
  req_sql_query :: string
  req_db_path :: "string option"
  req_saved_db_path :: "string option"
  req_target_sqlite_version :: string
  req_target_result :: exec_result
  req_reference_sqlite_version :: string
  req_reference_result :: exec_result

record bug_tracker =
  locate :: "(save_request \<times> string) list \<Rightarrow> save_request \<Rightarrow> string"
  served :: "(save_request \<times> string) list"

definition save_reproducer :: "bug_tracker \<Rightarrow> save_request \<Rightarrow> string \<times> bug_tracker" where
  "save_reproducer bt req =
     (let dir = locate bt (served bt) req
      in (dir, bt\<lparr>served := served bt @ [(req, dir)]\<rparr>))"

definition request_of :: "run_result \<Rightarrow> save_request" where
  "request_of r =
     \<lparr>req_bug_type = outcome r,
      req_sql_query = sql_query r,
      req_db_path = db_path r,
      req_saved_db_path = saved_db_path r,
      req_target_sqlite_version = target_sqlite_version r,
      req_target_result = target_result r,
      req_reference_sqlite_version = reference_sqlite_version r,
      req_reference_result = reference_result r\<rparr>"

text \<open>
  The statement \<^verbatim>\<open>self.stats[target_path][outcome] = self.stats[target_path].get(outcome, 0) + 1\<close>.
\<close>

definition count_outcome :: "(string \<rightharpoonup> (outcome \<rightharpoonup> nat)) \<Rightarrow> string \<Rightarrow> outcome
    \<Rightarrow> py_error + (string \<rightharpoonup> (outcome \<rightharpoonup> nat))" where
  "count_outcome st target_path oc =
     (case st target_path of
        None \<Rightarrow> Inl (KeyError target_path)
      | Some m \<Rightarrow> Inr (st(target_path \<mapsto> m(oc \<mapsto> (case m oc of None \<Rightarrow> 0 | Some n \<Rightarrow> n) + 1))))"

text \<open>
  The loop of \<^verbatim>\<open>record_results\<close> over the items of the dictionary.  The history holds
  the run result object itself, so the entry shows the \<^verbatim>\<open>bug_dir\<close> attached later in
  the same iteration; \<open>done\<close> collects the run results as the loop leaves them.
\<close>

fun record_items :: "runner \<Rightarrow> bug_tracker \<Rightarrow> (string \<times> run_result) list
    \<Rightarrow> (string \<times> run_result) list
    \<Rightarrow> py_error + runner \<times> bug_tracker \<times> (string \<times> run_result) list" where
  "record_items self bt [] recorded = Inr (self, bt, recorded)"
| "record_items self bt ((target_path, r) # items) recorded =
     (case count_outcome (stats self) target_path (outcome r) of
        Inl e \<Rightarrow> Inl e
      | Inr st \<Rightarrow>
          (let (r', bt') =
                 (if outcome r \<in> {CRASH, LOGIC_BUG, REFERENCE_ERROR}
                  then (let (dir, bt1) = save_reproducer bt (request_of r)
                        in (r\<lparr>bug_dir := Some dir\<rparr>, bt1))
                  else (r, bt))
           in record_items
                (self\<lparr>stats := st, run_results := run_results self @ [(target_path, r')]\<rparr>)
                bt' items (recorded @ [(target_path, r')])))"

text \<open>\<^verbatim>\<open>record_results\<close>; \<^verbatim>\<open>xs[-50:]\<close> keeps the last fifty entries.\<close>

definition max_results_to_keep :: nat where
  "max_results_to_keep = 50"

definition record_results :: "runner \<Rightarrow> (string \<times> run_result) list \<Rightarrow> bug_tracker
    \<Rightarrow> py_error + runner \<times> bug_tracker \<times> (string \<times> run_result) list" where
  "record_results self results bt =
     (case record_items (self\<lparr>current_trial := current_trial self + 1\<rparr>) bt results [] of
        Inl e \<Rightarrow> Inl e
      | Inr (self1, bt1, recorded) \<Rightarrow>
          Inr ((if length (run_results self1) > max_results_to_keep
                then self1\<lparr>run_results :=
                       drop (length (run_results self1) - max_results_to_keep) (run_results self1)\<rparr>
                else self1),
               bt1, recorded))"

text \<open>
  A session: \<^verbatim>\<open>record_results\<close> once per trial, in order.  The third argument
  collects every recorded entry of the session, oldest first.
\<close>

fun record_session :: "runner \<Rightarrow> bug_tracker \<Rightarrow> (string \<times> run_result) list
    \<Rightarrow> (string \<times> run_result) list list
    \<Rightarrow> py_error + runner \<times> bug_tracker \<times> (string \<times> run_result) list" where
  "record_session self bt entries [] = Inr (self, bt, entries)"
| "record_session self bt entries (results # trials) =
     (case record_results self results bt of
        Inl e \<Rightarrow> Inl e
      | Inr (self', bt', recorded) \<Rightarrow> record_session self' bt' (entries @ recorded) trials)"

text \<open>\<^verbatim>\<open>sum(self.stats[target].values())\<close>.\<close>

definition stats_total :: "(outcome \<rightharpoonup> nat) \<Rightarrow> nat" where
  "stats_total m =
     sum_list (map (\<lambda>oc. case m oc of None \<Rightarrow> 0 | Some n \<Rightarrow> n)
                [PASS, CRASH, LOGIC_BUG, REFERENCE_ERROR, INVALID_QUERY])"

text \<open>\<^verbatim>\<open>self.stats[target].get(outcome, 0)\<close>, and 0 for a target without statistics.\<close>

definition counter :: "(string \<rightharpoonup> (outcome \<rightharpoonup> nat)) \<Rightarrow> string \<Rightarrow> outcome \<Rightarrow> nat" where
  "counter st t oc =
     (case st t of None \<Rightarrow> 0 | Some m \<Rightarrow> (case m oc of None \<Rightarrow> 0 | Some n \<Rightarrow> n))"

text \<open>The outcomes for which \<^verbatim>\<open>record_results\<close> calls the tracker.\<close>

definition reported :: "outcome \<Rightarrow> bool" where
  "reported oc = (oc \<in> {CRASH, LOGIC_BUG, REFERENCE_ERROR})"


subsection \<open>The classification table of the specification\<close>

definition crashed :: "exec_result \<Rightarrow> bool" where
  "crashed r = (returncode r \<noteq> 0)"

definition outputs_match :: "exec_result \<Rightarrow> exec_result \<Rightarrow> bool" where
  "outputs_match reference target =
     (map_option normalize_output (stdout reference) = map_option normalize_output (stdout target))"

text \<open>
  The table of the specification, row by row: reference crashed, target crashed,
  outputs match after normalisation.
\<close>

fun outcome_table :: "bool \<Rightarrow> bool \<Rightarrow> bool \<Rightarrow> outcome" where
  "outcome_table False True _ = CRASH"
| "outcome_table True False _ = REFERENCE_ERROR"
| "outcome_table False False True = PASS"
| "outcome_table False False False = LOGIC_BUG"
| "outcome_table True True _ = INVALID_QUERY"

subsection \<open>A small concrete setting\<close>

text \<open>
  A world with one database file, in which every program prints one row and exits with
  status 0, and a runner with two targets.
\<close>

definition demo_world :: world where
  "demo_world =
     \<lparr>files = [''/data/base.db'' \<mapsto> ''rows''],
      uuid_hex = (\<lambda>n. if n = 0 then ''0a1b2c3d4e5f60718293a4b5c6d7e8f9''
                       else if n = 1 then ''1b2c3d4e5f60718293a4b5c6d7e8f90a''
                       else if n = 2 then ''2c3d4e5f60718293a4b5c6d7e8f90a1b''
                       else ''3d4e5f60718293a4b5c6d7e8f90a1b2c''),
      uuid_next = 0,
      tempfile_error = (\<lambda>q. None),
      copy_error = (\<lambda>src dst. None),
      spawn = (\<lambda>prog path q t fs. (Completed 0 ''1|2'' [], fs)),
      journal = []\<rparr>"

definition demo_runner :: runner where
  "demo_runner = init [''/opt/sqlite-3.39'', ''/opt/sqlite-3.40''] ''/opt/sqlite-3.26'' 10 30 ''/tmp/fuzzqlite_x''"

definition demo_result :: "int \<Rightarrow> string option \<Rightarrow> string option \<Rightarrow> exec_result" where
  "demo_result rc out err = \<lparr>returncode = rc, stdout = out, stderr = err\<rparr>"

definition demo_run_result :: "outcome \<Rightarrow> run_result" where
  "demo_run_result oc =
     \<lparr>outcome = oc,
      sql_query = ''SELECT 1;'',
      db_path = None,
      saved_db_path = None,
      target_sqlite_version = ''3.39'',
      target_result = demo_result (- 1) None (Some ''boom''),
      reference_sqlite_version = ''3.26'',
      reference_result = demo_result (- 1) None (Some ''boom''),
      bug_dir = None\<rparr>"


definition demo_tracker :: bug_tracker where
  "demo_tracker = \<lparr>locate = (\<lambda>before req. ''bugs/'' @ show_nat (length before)), served = []\<rparr>"

definition timeout_world :: world where
  "timeout_world = demo_world\<lparr>spawn := (\<lambda>prog path q t fs. (TimeoutExpired (Some ''1|'') None, fs))\<rparr>"

definition full_disk_world :: world where
  "full_disk_world = demo_world\<lparr>tempfile_error := (\<lambda>q. Some ''No space left on device'')\<rparr>"

subsection \<open>Notions used to state the properties of \<^verbatim>\<open>record_results\<close>\<close>

text \<open>
  \<open>entry_rel e e'\<close>: the recorded entry \<open>e'\<close> is the entry \<open>e\<close>, for the same target, with
  at most its \<^verbatim>\<open>bug_dir\<close> changed, and it has a location exactly when its outcome is a
  reported one.  \<open>served_by\<close> lists the requests and locations of the reported entries;
  \<open>tally\<close> counts the entries of a target with an outcome.
\<close>

definition entry_rel :: "string \<times> run_result \<Rightarrow> string \<times> run_result \<Rightarrow> bool" where
  "entry_rel e e' =
     (fst e' = fst e \<and> snd e' = (snd e)\<lparr>bug_dir := bug_dir (snd e')\<rparr> \<and>
      (if reported (outcome (snd e)) then bug_dir (snd e') \<noteq> None
       else bug_dir (snd e') = bug_dir (snd e)))"

definition served_by :: "(string \<times> run_result) list \<Rightarrow> (save_request \<times> string) list" where
  "served_by rs = map (\<lambda>e. (request_of (snd e), the (bug_dir (snd e))))
                     (filter (\<lambda>e. reported (outcome (snd e))) rs)"

definition tally :: "string \<Rightarrow> outcome \<Rightarrow> (string \<times> run_result) list \<Rightarrow> nat" where
  "tally t oc xs = length (filter (\<lambda>e. fst e = t \<and> outcome (snd e) = oc) xs)"

definition demo_trials :: "(string \<times> run_result) list list" where
  "demo_trials =
     [[(''/opt/sqlite-3.39'', demo_run_result CRASH), (''/opt/sqlite-3.40'', demo_run_result PASS)],
      [(''/opt/sqlite-3.39'', demo_run_result PASS), (''/opt/sqlite-3.40'', demo_run_result INVALID_QUERY)]]"

subsection \<open>Notions used to state the properties of \<^verbatim>\<open>run\<close>\<close>




section \<open>Properties\<close>

lemma py_split_nonempty: "py_split sep s \<noteq> []"
  by (induction s) (auto split: list.splits)

subsection \<open>Outcome classification\<close>

lemma run_sqlite_stdout:
  assumes "run_sqlite self w prog query path = (Inr r, w')" and "returncode r = 0"
  shows "stdout r \<noteq> None"
  using assms
  by (auto simp: run_sqlite_def Let_def split: option.splits prod.splits proc_event.splits)

text \<open>
  C1: for every pair of execution results the executor returns, the decision of
  \<^verbatim>\<open>run\<close> raises nothing and yields the outcome of the specification's table, where
  crashed means a non-zero exit status: target crashed and reference did not gives
  CRASH, reference crashed and target did not gives REFERENCE\_ERROR, neither crashed
  gives PASS when the normalised outputs are equal and LOGIC\_BUG when they differ,
  both crashed gives INVALID\_QUERY.  When neither crashed both outputs are texts, and
  two outputs that normalise to the empty text give PASS.  The outcome is a value of a
  type with exactly five values, so the cases are exclusive.
\<close>

theorem classify_table:
  assumes "run_sqlite s1 w1 p1 q1 d1 = (Inr reference, w1')"
      and "run_sqlite s2 w2 p2 q2 d2 = (Inr target, w2')"
  shows "classify reference target =
           Inr (outcome_table (crashed reference) (crashed target) (outputs_match reference target))
         \<and> (\<not> crashed reference \<and> \<not> crashed target \<longrightarrow>
              (\<exists>r t. stdout reference = Some r \<and> stdout target = Some t \<and>
                 (normalize_output r = [] \<and> normalize_output t = [] \<longrightarrow>
                    classify reference target = Inr PASS)))"
proof -
  have r: "returncode reference = 0 \<Longrightarrow> stdout reference \<noteq> None"
    using run_sqlite_stdout [OF assms(1)] .
  have t: "returncode target = 0 \<Longrightarrow> stdout target \<noteq> None"
    using run_sqlite_stdout [OF assms(2)] .
  show ?thesis
    using r t
    by (cases "returncode reference = 0"; cases "returncode target = 0")
       (auto simp: classify_def crashed_def outputs_match_def)
qed

theorem classify_table_witness:
  "classify (demo_result 0 (Some ''1|2'') (Some [])) (demo_result 0 (Some ''1|2'') (Some []))
     = Inr PASS"
  using classify_table [of demo_runner demo_world "''/opt/sqlite-3.26''" "''SELECT 1;''"
      "Some ''/data/base.db''" "demo_result 0 (Some ''1|2'') (Some [])" _
      demo_runner demo_world "''/opt/sqlite-3.39''" "''SELECT 1;''" "Some ''/data/base.db''"
      "demo_result 0 (Some ''1|2'') (Some [])"]
  by (simp add: run_sqlite_def launch_def demo_world_def demo_result_def crashed_def
      outputs_match_def)

text \<open>
  C10: the classification reads only the two exit statuses and the two standard
  outputs: two pairs of results that agree on them get the same answer, whatever their
  error streams hold.
\<close>

theorem classify_ignores_stderr:
  assumes "returncode r1 = returncode r2" and "stdout r1 = stdout r2"
      and "returncode t1 = returncode t2" and "stdout t1 = stdout t2"
  shows "classify r1 t1 = classify r2 t2"
  unfolding classify_def Let_def using assms by (simp split: option.splits)

theorem classify_ignores_stderr_witness:
  "classify (demo_result 0 (Some ''5'') (Some ''warning'')) (demo_result 0 (Some ''6'') None)
     = classify (demo_result 0 (Some ''5'') None) (demo_result 0 (Some ''6'') (Some ''note''))"
  using classify_ignores_stderr [of "demo_result 0 (Some ''5'') (Some ''warning'')"
      "demo_result 0 (Some ''5'') None" "demo_result 0 (Some ''6'') None"
      "demo_result 0 (Some ''6'') (Some ''note'')"]
  by (simp add: demo_result_def)

subsection \<open>The bounded executor\<close>

text \<open>
  C2, as the claim states it, fails: the temporary file that carries the statement is
  created and written before the \<^verbatim>\<open>try\<close> block, and an error there leaves
  \<^verbatim>\<open>_run_sqlite\<close> as an exception.
\<close>

theorem run_sqlite_raises: 
  "fst (run_sqlite demo_runner full_disk_world ''/opt/sqlite-3.39'' ''SELECT 1;'' (Some ''/data/base.db''))
     = Inl (OSError ''No space left on device'')"
  by (simp add: run_sqlite_def full_disk_world_def demo_world_def)

text \<open>
  C2, amended: whenever the temporary statement file is written without error, the
  executor returns an execution result for every program path, statement and data
  path.  A timeout gives the status \<open>-1\<close> with the output and error text captured
  so far; any other failure of the launch gives \<open>-1\<close> with the failure's description
  as the error stream; a missing data path is such a failure.
\<close>

theorem run_sqlite_returns:
  assumes "tempfile_error w query = None"
  shows "\<exists>r w'. run_sqlite self w prog query path = (Inr r, w') \<and>
           (\<forall>out err fs. launch self w prog query path = (TimeoutExpired out err, fs) \<longrightarrow>
              returncode r = - 1 \<and> stdout r = out \<and> stderr r = err) \<and>
           (\<forall>msg fs. launch self w prog query path = (Raised msg, fs) \<longrightarrow>
              returncode r = - 1 \<and> stderr r = Some msg) \<and>
           (path = None \<longrightarrow> returncode r = - 1 \<and> stderr r \<noteq> None)"
  using assms
  by (cases "launch self w prog query path"; cases "fst (launch self w prog query path)")
     (auto simp: run_sqlite_def Let_def launch_def)

theorem run_sqlite_returns_witness:
  "fst (run_sqlite demo_runner timeout_world ''/opt/sqlite-3.39'' ''SELECT 1;'' (Some ''/data/base.db''))
     = Inr \<lparr>returncode = - 1, stdout = Some ''1|'', stderr = None\<rparr>
   \<and> returncode (projr (fst (run_sqlite demo_runner demo_world ''/opt/sqlite-3.39'' ''SELECT 1;'' None))) = - 1"
  using run_sqlite_returns [of timeout_world "''SELECT 1;''" demo_runner "''/opt/sqlite-3.39''" "Some ''/data/base.db''"]
    run_sqlite_returns [of demo_world "''SELECT 1;''" demo_runner "''/opt/sqlite-3.39''" None]
  by (auto simp: timeout_world_def demo_world_def launch_def)

subsection \<open>The snapshotter\<close>



subsection \<open>Recording results\<close>

lemma count_outcome_ok:
  assumes "st t \<noteq> None"
  shows "\<exists>st'. count_outcome st t oc = Inr st' \<and> dom st' = dom st \<and>
           (\<forall>t' oc'. counter st' t' oc' = counter st t' oc' + (if t' = t \<and> oc' = oc then 1 else 0))"
  using assms by (auto simp: count_outcome_def counter_def split: option.splits)

lemma record_items_ok:
  assumes "fst ` set items \<subseteq> dom (stats self)"
  shows "\<exists>self' bt' rs. record_items self bt items acc = Inr (self', bt', acc @ rs)
      \<and> self' = self\<lparr>stats := stats self', run_results := run_results self @ rs\<rparr>
      \<and> dom (stats self') = dom (stats self)
      \<and> (\<forall>t oc. counter (stats self') t oc = counter (stats self) t oc + tally t oc items)
      \<and> list_all2 entry_rel items rs
      \<and> bt' = bt\<lparr>served := served bt @ served_by rs\<rparr>"
  using assms
proof (induction items arbitrary: self bt acc)
  case Nil
  then show ?case by (simp add: tally_def served_by_def)
next
  case (Cons item items)
  obtain t r where item: "item = (t, r)" by (cases item)
  from Cons.prems item have "stats self t \<noteq> None" by auto
  from count_outcome_ok [of "stats self" t "outcome r", OF this] obtain st where
    st: "count_outcome (stats self) t (outcome r) = Inr st" "dom st = dom (stats self)"
      "\<And>t' oc'. counter st t' oc' = counter (stats self) t' oc' + (if t' = t \<and> oc' = outcome r then 1 else 0)"
    by blast
  define r' where "r' = (if reported (outcome r)
      then r\<lparr>bug_dir := Some (locate bt (served bt) (request_of r))\<rparr> else r)"
  define bt1 where "bt1 = (if reported (outcome r)
      then bt\<lparr>served := served bt @ [(request_of r, locate bt (served bt) (request_of r))]\<rparr> else bt)"
  define self1 where "self1 = self\<lparr>stats := st, run_results := run_results self @ [(t, r')]\<rparr>"
  have step: "record_items self bt (item # items) acc = record_items self1 bt1 items (acc @ [(t, r')])"
    by (simp add: item st(1) r'_def bt1_def self1_def reported_def save_reproducer_def Let_def)
  have "fst ` set items \<subseteq> dom (stats self1)"
    using Cons.prems st(2) by (auto simp: self1_def)
  from Cons.IH [OF this, of bt1 "acc @ [(t, r')]"] obtain self' bt' rs where
    ih: "record_items self1 bt1 items (acc @ [(t, r')]) = Inr (self', bt', (acc @ [(t, r')]) @ rs)"
      "self' = self1\<lparr>stats := stats self', run_results := run_results self1 @ rs\<rparr>"
      "dom (stats self') = dom (stats self1)"
      "\<And>t' oc. counter (stats self') t' oc = counter (stats self1) t' oc + tally t' oc items"
      "list_all2 entry_rel items rs"
      "bt' = bt1\<lparr>served := served bt1 @ served_by rs\<rparr>"
    by blast
  have rel: "entry_rel item (t, r')"
    by (simp add: entry_rel_def item r'_def)
  have sv: "served bt1 = served bt @ served_by [(t, r')]"
    by (simp add: bt1_def served_by_def r'_def request_of_def)
  have "record_items self bt (item # items) acc = Inr (self', bt', acc @ ((t, r') # rs))"
    using step ih(1) by simp
  moreover have "self' = self\<lparr>stats := stats self', run_results := run_results self @ ((t, r') # rs)\<rparr>"
    using ih(2) by (simp add: self1_def)
  moreover have "dom (stats self') = dom (stats self)"
    using ih(3) st(2) by (simp add: self1_def)
  moreover have "\<forall>t' oc. counter (stats self') t' oc = counter (stats self) t' oc + tally t' oc (item # items)"
    using ih(4) st(3) by (auto simp: self1_def tally_def item)
  moreover have "list_all2 entry_rel (item # items) ((t, r') # rs)"
    using rel ih(5) by simp
  moreover have "bt' = bt\<lparr>served := served bt @ served_by ((t, r') # rs)\<rparr>"
    using ih(6) sv by (simp add: bt1_def served_by_def)
  ultimately show ?case by blast
qed

lemma record_results_ok:
  assumes "fst ` set results \<subseteq> dom (stats self)"
  shows "\<exists>self' bt' rs. record_results self results bt = Inr (self', bt', rs)
      \<and> self' = self\<lparr>current_trial := current_trial self + 1, stats := stats self',
            run_results := drop (length (run_results self @ rs) - 50) (run_results self @ rs)\<rparr>
      \<and> dom (stats self') = dom (stats self)
      \<and> (\<forall>t oc. counter (stats self') t oc = counter (stats self) t oc + tally t oc results)
      \<and> list_all2 entry_rel results rs
      \<and> bt' = bt\<lparr>served := served bt @ served_by rs\<rparr>"
proof -
  let ?s = "self\<lparr>current_trial := current_trial self + 1\<rparr>"
  have "fst ` set results \<subseteq> dom (stats ?s)" using assms by simp
  from record_items_ok [OF this, of bt "[]"] obtain self1 bt' rs where
    h: "record_items ?s bt results [] = Inr (self1, bt', [] @ rs)"
      "self1 = ?s\<lparr>stats := stats self1, run_results := run_results ?s @ rs\<rparr>"
      "dom (stats self1) = dom (stats ?s)"
      "\<And>t oc. counter (stats self1) t oc = counter (stats ?s) t oc + tally t oc results"
      "list_all2 entry_rel results rs"
      "bt' = bt\<lparr>served := served bt @ served_by rs\<rparr>"
    by blast
  have rr: "run_results self1 = run_results self @ rs"
    by (subst h(2)) simp
  show ?thesis
  proof (cases "length (run_results self1) > 50")
    case True
    let ?s' = "self1\<lparr>run_results := drop (length (run_results self1) - 50) (run_results self1)\<rparr>"
    have "record_results self results bt = Inr (?s', bt', rs)"
      using h(1) True by (simp add: record_results_def max_results_to_keep_def)
    moreover have "?s' = self\<lparr>current_trial := current_trial self + 1, stats := stats ?s',
            run_results := drop (length (run_results self @ rs) - 50) (run_results self @ rs)\<rparr>"
      by (subst h(2)) (simp add: rr)
    ultimately show ?thesis using h(3-6) by auto
  next
    case False
    have "record_results self results bt = Inr (self1, bt', rs)"
      using h(1) False by (simp add: record_results_def max_results_to_keep_def)
    moreover have "self1 = self\<lparr>current_trial := current_trial self + 1, stats := stats self1,
            run_results := drop (length (run_results self @ rs) - 50) (run_results self @ rs)\<rparr>"
      using False by (subst h(2)) (simp add: rr)
    ultimately show ?thesis using h(3-6) by auto
  qed
qed

text \<open>
  C3, as the claim states it, fails for INVALID\_QUERY: such a run result is counted and
  kept in the history, but the tracker is not called and no location is attached.
\<close>

theorem record_results_skips_invalid_query:
  "(case record_results demo_runner [(''/opt/sqlite-3.39'', demo_run_result INVALID_QUERY)] demo_tracker of
      Inl e \<Rightarrow> False
    | Inr (s, bt, recorded) \<Rightarrow>
        served bt = [] \<and> map (\<lambda>(t, r). (outcome r, bug_dir r)) recorded = [(INVALID_QUERY, None)])"
  by (simp add: record_results_def demo_runner_def init_def demo_run_result_def demo_tracker_def
      count_outcome_def zero_stats_def max_results_to_keep_def)

text \<open>
  C3, amended: \<^verbatim>\<open>record_results\<close>, called with run results of targets that have
  statistics, returns normally; every run result whose outcome is CRASH, LOGIC\_BUG or
  REFERENCE\_ERROR has a location attached, every other one is left as it was, and the
  tracker has served, in order, exactly the requests of the run results with those
  three outcomes, returning the locations attached.
\<close>

theorem record_results_archives:
  assumes "fst ` set results \<subseteq> dom (stats self)"
  shows "\<exists>self' bt' recorded. record_results self results bt = Inr (self', bt', recorded) \<and>
           list_all2 (\<lambda>e e'. fst e' = fst e \<and> snd e' = (snd e)\<lparr>bug_dir := bug_dir (snd e')\<rparr> \<and>
                        (if reported (outcome (snd e)) then bug_dir (snd e') \<noteq> None
                         else bug_dir (snd e') = bug_dir (snd e))) results recorded \<and>
           served bt' = served bt @
             map (\<lambda>e. (request_of (snd e), the (bug_dir (snd e))))
               (filter (\<lambda>e. reported (outcome (snd e))) recorded)"
proof -
  from record_results_ok [OF assms, of bt] obtain self' bt' rs where
    h: "record_results self results bt = Inr (self', bt', rs)" "list_all2 entry_rel results rs"
      "bt' = bt\<lparr>served := served bt @ served_by rs\<rparr>"
    by blast
  have "served bt' = served bt @ served_by rs" by (subst h(3)) simp
  moreover have "entry_rel = (\<lambda>e e'. fst e' = fst e \<and> snd e' = (snd e)\<lparr>bug_dir := bug_dir (snd e')\<rparr> \<and>
                        (if reported (outcome (snd e)) then bug_dir (snd e') \<noteq> None
                         else bug_dir (snd e') = bug_dir (snd e)))"
    by (intro ext) (simp add: entry_rel_def)
  ultimately show ?thesis using h(1,2) by (auto simp: served_by_def)
qed

theorem record_results_archives_witness:
  "(case record_results demo_runner
           [(''/opt/sqlite-3.39'', demo_run_result CRASH), (''/opt/sqlite-3.40'', demo_run_result PASS)]
           demo_tracker of
      Inl e \<Rightarrow> False
    | Inr (s, bt, recorded) \<Rightarrow>
        map fst (served bt) = [request_of (demo_run_result CRASH)] \<and>
        map (\<lambda>(t, r). (outcome r, bug_dir r)) recorded = [(CRASH, Some ''bugs/0''), (PASS, None)])"
  using record_results_archives [of "[(''/opt/sqlite-3.39'', demo_run_result CRASH), (''/opt/sqlite-3.40'', demo_run_result PASS)]"
      demo_runner demo_tracker]
  by (simp add: record_results_def demo_runner_def init_def demo_run_result_def demo_tracker_def
      count_outcome_def zero_stats_def max_results_to_keep_def save_reproducer_def request_of_def
      Let_def reported_def digit_char_def show_nat.simps)

lemma reset_stats_ok:
  assumes "set ts \<subseteq> dom st"
  shows "\<exists>st'. reset_stats st ts = Inr st' \<and> dom st' = dom st \<and>
           (\<forall>t oc. counter st' t oc = (if t \<in> set ts then 0 else counter st t oc)) \<and>
           (\<forall>t m. st t = Some m \<longrightarrow> (\<exists>m'. st' t = Some m' \<and> dom m' = dom m))"
  using assms
proof (induction ts arbitrary: st)
  case Nil
  then show ?case by simp
next
  case (Cons t ts)
  then obtain m where m: "st t = Some m" by auto
  let ?st = "st(t \<mapsto> (\<lambda>oc. if m oc = None then None else Some 0))"
  have "set ts \<subseteq> dom ?st" using Cons.prems by auto
  from Cons.IH [OF this] obtain st' where
    ih: "reset_stats ?st ts = Inr st'" "dom st' = dom ?st"
      "\<And>t' oc. counter st' t' oc = (if t' \<in> set ts then 0 else counter ?st t' oc)"
      "\<And>t' m0. ?st t' = Some m0 \<Longrightarrow> (\<exists>m'. st' t' = Some m' \<and> dom m' = dom m0)"
    by blast
  have "reset_stats st (t # ts) = Inr st'" using m ih(1) by simp
  moreover have "dom st' = dom st" using ih(2) m by auto
  moreover have "\<forall>t' oc. counter st' t' oc = (if t' \<in> set (t # ts) then 0 else counter st t' oc)"
    using ih(3) by (auto simp: counter_def)
  moreover have "\<forall>t' m0. st t' = Some m0 \<longrightarrow> (\<exists>m'. st' t' = Some m' \<and> dom m' = dom m0)"
  proof (intro allI impI)
    fix t' m0 assume a: "st t' = Some m0"
    show "\<exists>m'. st' t' = Some m' \<and> dom m' = dom m0"
    proof (cases "t' = t")
      case True
      have "dom (\<lambda>oc. if m oc = None then None else Some (0::nat)) = dom m"
        by (auto simp: dom_def)
      then show ?thesis using ih(4) [of t "\<lambda>oc. if m oc = None then None else Some 0"] True a m by simp
    next
      case False
      then show ?thesis using ih(4) [of t' m0] a by simp
    qed
  qed
  ultimately show ?case by blast
qed

lemma stats_total_counter:
  assumes "st t = Some m"
  shows "stats_total m = sum_list (map (counter st t) [PASS, CRASH, LOGIC_BUG, REFERENCE_ERROR, INVALID_QUERY])"
  using assms by (simp add: stats_total_def counter_def)

lemma tally_sum:
  "sum_list (map (\<lambda>oc. tally t oc xs) [PASS, CRASH, LOGIC_BUG, REFERENCE_ERROR, INVALID_QUERY])
     = length (filter (\<lambda>e. fst e = t) xs)"
proof (induction xs)
  case Nil
  then show ?case by (simp add: tally_def)
next
  case (Cons x xs)
  then show ?case by (cases "outcome (snd x)") (auto simp: tally_def)
qed

lemma tally_append: "tally t oc (xs @ ys) = tally t oc xs + tally t oc ys"
  by (simp add: tally_def)

lemma drop_history:
  "drop (length (drop (length (es::'a list) - n) es @ rs) - n) (drop (length es - n) es @ rs)
     = drop (length (es @ rs) - n) (es @ rs)"
proof (cases "length es \<le> n")
  case True
  then show ?thesis by simp
next
  case False
  define k where "k = length es - n"
  have k: "k \<le> length es" "length (drop k es) = n" using False by (simp_all add: k_def)
  have l: "length (drop k es @ rs) - n = length rs" using k(2) by simp
  have r: "length (es @ rs) - n = length rs + k" using False by (simp add: k_def)
  have "drop (length rs + k) (es @ rs) = drop (length rs) (drop k (es @ rs))"
    by (simp only: drop_drop)
  also have "drop k (es @ rs) = drop k es @ rs" using k(1) by simp
  finally show ?thesis unfolding k_def [symmetric] l r by simp
qed

lemma record_session_ok:
  assumes "\<forall>results \<in> set trials. fst ` set results \<subseteq> dom (stats self)"
      and "run_results self = drop (length entries - 50) entries"
  shows "\<exists>s1 bt1 new. record_session self bt entries trials = Inr (s1, bt1, entries @ new)
      \<and> dom (stats s1) = dom (stats self)
      \<and> (\<forall>t oc. counter (stats s1) t oc = counter (stats self) t oc + tally t oc (concat trials))
      \<and> list_all2 entry_rel (concat trials) new
      \<and> run_results s1 = drop (length (entries @ new) - 50) (entries @ new)
      \<and> served bt1 = served bt @ served_by new"
  using assms
proof (induction trials arbitrary: self bt entries)
  case Nil
  then show ?case by (simp add: tally_def served_by_def)
next
  case (Cons results trials)
  have "fst ` set results \<subseteq> dom (stats self)" using Cons.prems(1) by simp
  from record_results_ok [OF this, of bt] obtain self' bt' rs where
    h: "record_results self results bt = Inr (self', bt', rs)"
      "self' = self\<lparr>current_trial := current_trial self + 1, stats := stats self',
            run_results := drop (length (run_results self @ rs) - 50) (run_results self @ rs)\<rparr>"
      "dom (stats self') = dom (stats self)"
      "\<And>t oc. counter (stats self') t oc = counter (stats self) t oc + tally t oc results"
      "list_all2 entry_rel results rs"
      "bt' = bt\<lparr>served := served bt @ served_by rs\<rparr>"
    by blast
  have dh: "drop (length (run_results self @ rs) - 50) (run_results self @ rs)
      = drop (length (entries @ rs) - 50) (entries @ rs)"
    unfolding Cons.prems(2) by (rule drop_history)
  have rr0: "run_results self' = drop (length (run_results self @ rs) - 50) (run_results self @ rs)"
    by (subst h(2)) simp
  have rr: "run_results self' = drop (length ((entries @ rs)) - 50) (entries @ rs)"
    unfolding rr0 dh ..
  have keys: "\<forall>results \<in> set trials. fst ` set results \<subseteq> dom (stats self')"
    using Cons.prems(1) h(3) by simp
  from Cons.IH [OF keys rr, of bt'] obtain s1 bt1 new where
    ih: "record_session self' bt' (entries @ rs) trials = Inr (s1, bt1, (entries @ rs) @ new)"
      "dom (stats s1) = dom (stats self')"
      "\<And>t oc. counter (stats s1) t oc = counter (stats self') t oc + tally t oc (concat trials)"
      "list_all2 entry_rel (concat trials) new"
      "run_results s1 = drop (length ((entries @ rs) @ new) - 50) ((entries @ rs) @ new)"
      "served bt1 = served bt' @ served_by new"
    by blast
  have "record_session self bt entries (results # trials) = Inr (s1, bt1, entries @ (rs @ new))"
    using h(1) ih(1) by simp
  moreover have "dom (stats s1) = dom (stats self)" using ih(2) h(3) by simp
  moreover have "\<forall>t oc. counter (stats s1) t oc = counter (stats self) t oc + tally t oc (concat (results # trials))"
    using ih(3) h(4) by (simp add: tally_append)
  moreover have "list_all2 entry_rel (concat (results # trials)) (rs @ new)"
    using h(5) ih(4) by (simp add: list_all2_appendI)
  moreover have "run_results s1 = drop (length (entries @ (rs @ new)) - 50) (entries @ (rs @ new))"
    using ih(5) by simp
  moreover have "served bt1 = served bt @ served_by (rs @ new)"
    using ih(6) by (subst (asm) h(6)) (simp add: served_by_def)
  ultimately show ?case by blast
qed

lemma start_ok:
  assumes "set (target_sqlite_paths self) \<subseteq> dom (stats self)"
  shows "\<exists>s0. start_fuzzing_session self = Inr s0 \<and> dom (stats s0) = dom (stats self) \<and>
           target_sqlite_paths s0 = target_sqlite_paths self \<and> run_results s0 = [] \<and> current_trial s0 = 0 \<and>
           (\<forall>t oc. counter (stats s0) t oc = (if t \<in> set (target_sqlite_paths self) then 0 else counter (stats self) t oc)) \<and>
           (\<forall>t m. stats self t = Some m \<longrightarrow> (\<exists>m'. stats s0 t = Some m' \<and> dom m' = dom m))"
proof -
  from reset_stats_ok [OF assms] obtain st' where
    h: "reset_stats (stats self) (target_sqlite_paths self) = Inr st'" "dom st' = dom (stats self)"
       "\<forall>t oc. counter st' t oc = (if t \<in> set (target_sqlite_paths self) then 0 else counter (stats self) t oc)"
       "\<forall>t m. stats self t = Some m \<longrightarrow> (\<exists>m'. st' t = Some m' \<and> dom m' = dom m)"
    by blast
  then show ?thesis by (simp add: start_fuzzing_session_def)
qed

lemmas demo_defs = demo_trials_def demo_runner_def init_def demo_run_result_def demo_tracker_def
  start_fuzzing_session_def record_results_def count_outcome_def zero_stats_def
  max_results_to_keep_def save_reproducer_def request_of_def Let_def reported_def digit_char_def
  stats_total_def show_nat.simps

text \<open>
  C8: after \<^verbatim>\<open>start_fuzzing_session\<close>, which sets every counter of every configured
  target to zero, and any sequence of \<^verbatim>\<open>record_results\<close> calls for configured targets,
  every call returns normally, the counters of each target add up to the number of run
  results recorded for it, and no counter ever decreases: after any first part of the
  calls each counter lies between its value at the start and its value at the end.
\<close>

theorem stats_account:
  assumes "set (target_sqlite_paths self) \<subseteq> dom (stats self)"
      and "\<forall>results \<in> set trials. fst ` set results \<subseteq> set (target_sqlite_paths self)"
  shows "\<exists>s0 s1 bt1 entries.
           start_fuzzing_session self = Inr s0 \<and>
           record_session s0 bt [] trials = Inr (s1, bt1, entries) \<and>
           (\<forall>t \<in> set (target_sqlite_paths self).
              (\<forall>oc. counter (stats s0) t oc = 0) \<and>
              (\<exists>m. stats s1 t = Some m \<and>
                 stats_total m = length (filter (\<lambda>e. fst e = t) (concat trials)))) \<and>
           (\<forall>xs ys. trials = xs @ ys \<longrightarrow>
              (\<exists>sa ba ea. record_session s0 bt [] xs = Inr (sa, ba, ea) \<and>
                 (\<forall>t oc. counter (stats s0) t oc \<le> counter (stats sa) t oc \<and>
                         counter (stats sa) t oc \<le> counter (stats s1) t oc)))"
proof -
  from start_ok [OF assms(1)] obtain s0 where
    s0: "start_fuzzing_session self = Inr s0" "dom (stats s0) = dom (stats self)"
      "run_results s0 = []"
      "\<And>t oc. counter (stats s0) t oc = (if t \<in> set (target_sqlite_paths self) then 0 else counter (stats self) t oc)"
    by blast
  have keys: "\<forall>results \<in> set trials. fst ` set results \<subseteq> dom (stats s0)"
    using assms s0(2) by blast
  have h0: "run_results s0 = drop (length ([]::(string \<times> run_result) list) - 50) []" using s0(3) by simp
  from record_session_ok [OF keys h0, of bt] obtain s1 bt1 new where
    s1: "record_session s0 bt [] trials = Inr (s1, bt1, [] @ new)"
      "dom (stats s1) = dom (stats s0)"
      "\<And>t oc. counter (stats s1) t oc = counter (stats s0) t oc + tally t oc (concat trials)"
    by blast
  have tot: "\<exists>m. stats s1 t = Some m \<and> stats_total m = length (filter (\<lambda>e. fst e = t) (concat trials))"
    if t: "t \<in> set (target_sqlite_paths self)" for t
  proof -
    from t assms(1) s1(2) s0(2) obtain m where m: "stats s1 t = Some m" by blast
    have "stats_total m = sum_list (map (\<lambda>oc. tally t oc (concat trials)) [PASS, CRASH, LOGIC_BUG, REFERENCE_ERROR, INVALID_QUERY])"
      using t by (simp add: stats_total_counter [of "stats s1" t m, OF m] s1(3) s0(4))
    then show ?thesis using m tally_sum [of t "concat trials"] by simp
  qed
  have mono: "\<exists>sa ba ea. record_session s0 bt [] xs = Inr (sa, ba, ea) \<and>
                 (\<forall>t oc. counter (stats s0) t oc \<le> counter (stats sa) t oc \<and>
                         counter (stats sa) t oc \<le> counter (stats s1) t oc)"
    if split: "trials = xs @ ys" for xs ys
  proof -
    have kx: "\<forall>results \<in> set xs. fst ` set results \<subseteq> dom (stats s0)" using keys split by simp
    from record_session_ok [OF kx h0, of bt] obtain sa ba na where
      sa: "record_session s0 bt [] xs = Inr (sa, ba, [] @ na)"
        "\<And>t oc. counter (stats sa) t oc = counter (stats s0) t oc + tally t oc (concat xs)"
      by blast
    have "\<forall>t oc. counter (stats s0) t oc \<le> counter (stats sa) t oc \<and>
                 counter (stats sa) t oc \<le> counter (stats s1) t oc"
      by (simp add: sa(2) s1(3) split tally_append)
    then show ?thesis using sa(1) by blast
  qed
  show ?thesis
  proof (intro exI conjI)
    show "start_fuzzing_session self = Inr s0" by fact
    show "record_session s0 bt [] trials = Inr (s1, bt1, new)" using s1(1) by simp
    show "\<forall>t \<in> set (target_sqlite_paths self).
              (\<forall>oc. counter (stats s0) t oc = 0) \<and>
              (\<exists>m. stats s1 t = Some m \<and>
                 stats_total m = length (filter (\<lambda>e. fst e = t) (concat trials)))"
      using s0(4) tot by simp
    show "\<forall>xs ys. trials = xs @ ys \<longrightarrow>
              (\<exists>sa ba ea. record_session s0 bt [] xs = Inr (sa, ba, ea) \<and>
                 (\<forall>t oc. counter (stats s0) t oc \<le> counter (stats sa) t oc \<and>
                         counter (stats sa) t oc \<le> counter (stats s1) t oc))"
      using mono by blast
  qed
qed

theorem stats_account_witness:
  "(case start_fuzzing_session demo_runner of
      Inl e \<Rightarrow> False
    | Inr s0 \<Rightarrow>
        (case record_session s0 demo_tracker [] demo_trials of
           Inl e \<Rightarrow> False
         | Inr (s1, bt1, entries) \<Rightarrow>
             map_option stats_total (stats s1 ''/opt/sqlite-3.39'') = Some 2 \<and>
             counter (stats s1) ''/opt/sqlite-3.40'' INVALID_QUERY = 1))"
  using stats_account [of demo_runner demo_trials demo_tracker]
  by (simp add: demo_defs counter_def)

text \<open>
  C9: after \<^verbatim>\<open>start_fuzzing_session\<close> and any sequence of \<^verbatim>\<open>record_results\<close> calls
  for configured targets, the history holds at most fifty entries, and they are the last
  fifty (or all, when fewer) of the entries recorded in the session, in recording
  order; each recorded entry is the run result passed in, for its target, with at most
  the location attached.
\<close>

theorem history_bounded:
  assumes "set (target_sqlite_paths self) \<subseteq> dom (stats self)"
      and "\<forall>results \<in> set trials. fst ` set results \<subseteq> set (target_sqlite_paths self)"
  shows "\<exists>s0 s1 bt1 entries.
           start_fuzzing_session self = Inr s0 \<and>
           record_session s0 bt [] trials = Inr (s1, bt1, entries) \<and>
           list_all2 (\<lambda>e e'. fst e' = fst e \<and> snd e' = (snd e)\<lparr>bug_dir := bug_dir (snd e')\<rparr>)
             (concat trials) entries \<and>
           run_results s1 = drop (length entries - max_results_to_keep) entries \<and>
           length (run_results s1) \<le> max_results_to_keep \<and> max_results_to_keep = 50"
proof -
  from start_ok [OF assms(1)] obtain s0 where
    s0: "start_fuzzing_session self = Inr s0" "dom (stats s0) = dom (stats self)"
      "run_results s0 = []"
    by blast
  have keys: "\<forall>results \<in> set trials. fst ` set results \<subseteq> dom (stats s0)"
    using assms s0(2) by blast
  have h0: "run_results s0 = drop (length ([]::(string \<times> run_result) list) - 50) []" using s0(3) by simp
  from record_session_ok [OF keys h0, of bt] obtain s1 bt1 new where
    s1: "record_session s0 bt [] trials = Inr (s1, bt1, [] @ new)"
      "list_all2 entry_rel (concat trials) new"
      "run_results s1 = drop (length ([] @ new) - 50) ([] @ new)"
    by blast
  have "list_all2 (\<lambda>e e'. fst e' = fst e \<and> snd e' = (snd e)\<lparr>bug_dir := bug_dir (snd e')\<rparr>) (concat trials) new"
    using s1(2) by (rule list_all2_mono) (simp add: entry_rel_def)
  then show ?thesis using s0(1) s1(1,3) by (auto simp: max_results_to_keep_def)
qed

theorem history_bounded_witness:
  "(case start_fuzzing_session demo_runner of
      Inl e \<Rightarrow> False
    | Inr s0 \<Rightarrow>
        (case record_session s0 demo_tracker [] demo_trials of
           Inl e \<Rightarrow> False
         | Inr (s1, bt1, entries) \<Rightarrow>
             map (\<lambda>(t, r). (t, outcome r, bug_dir r)) (run_results s1) =
               [(''/opt/sqlite-3.39'', CRASH, Some ''bugs/0''), (''/opt/sqlite-3.40'', PASS, None),
                (''/opt/sqlite-3.39'', PASS, None), (''/opt/sqlite-3.40'', INVALID_QUERY, None)]))"
  using history_bounded [of demo_runner demo_trials demo_tracker]
  by (simp add: demo_defs)

subsection \<open>The differential run\<close>


















end
